theory Spec2Isabelle
  imports Main "HOL-Library.Sublist"
begin

section \<open>Values of the script\<close>

text \<open>
  The script is \<^verbatim>\<open>reddit_post_notifier/__main__.py\<close>. Every exception it can raise or
  catch is a constructor of \<open>exn\<close>; a call that may raise returns \<open>exn + 'a\<close>, with
  \<open>Inl\<close> for the exception.
\<close>

datatype exn =
    TypeError
  | ValueError
  | OverflowError
  | IndexError
  | KeyError string
  | FileNotFoundError
  | JSONDecodeError
  | YAMLError

text \<open>
  What \<^verbatim>\<open>requests\<close> gives back: a response, or a \<^verbatim>\<open>RequestException\<close> (raised by the
  call itself or by \<^verbatim>\<open>raise_for_status\<close>) with its message.
\<close>

datatype 'a http = RequestException string | Response 'a

text \<open>
  A \<^verbatim>\<open>datetime\<close> is a number of microseconds on the UTC time line, a \<^verbatim>\<open>timedelta\<close> a
  difference of two of them.
\<close>

type_synonym datetime = int
type_synonym timedelta = int

section \<open>The document tree\<close>

text \<open>
  A BeautifulSoup tree: a tag has a name, its string-valued attributes, the list of its
  classes (the multi-valued \<^verbatim>\<open>class\<close> attribute, which the parser splits at white space)
  and its children; a leaf is a string of the page.
\<close>

datatype node =
    Tag (tag_name: string) (attrs: "(string \<times> string) list") (classes: "string list")
      (children: "node list")
  | NavigableString string

fun descendants :: "node \<Rightarrow> node list" where
  "descendants (Tag n a c ch) = concat (map (\<lambda>x. x # descendants x) ch)"
| "descendants (NavigableString s) = []"

fun is_tag :: "string \<Rightarrow> string option \<Rightarrow> node \<Rightarrow> bool" where
  "is_tag n None (Tag m a c ch) = (m = n)"
| "is_tag n (Some cl) (Tag m a c ch) = (m = n \<and> cl \<in> set c)"
| "is_tag n cl (NavigableString s) = False"

text \<open>\<^verbatim>\<open>find_all(name, class_=...)\<close>: the matching descendants, in document order.\<close>

definition find_all :: "node \<Rightarrow> string \<Rightarrow> string option \<Rightarrow> node list" where
  "find_all nd n cl = filter (is_tag n cl) (descendants nd)"

text \<open>\<^verbatim>\<open>find(name, class_=...)\<close>: the first match, or \<^verbatim>\<open>None\<close>.\<close>

definition find_first :: "node \<Rightarrow> string \<Rightarrow> string option \<Rightarrow> node option" where
  "find_first nd n cl = (case find_all nd n cl of [] \<Rightarrow> None | x # _ \<Rightarrow> Some x)"

text \<open>\<^verbatim>\<open>tag.get(key, default)\<close>, \<^verbatim>\<open>tag.has_attr(key)\<close> and \<^verbatim>\<open>tag[key]\<close>.\<close>

fun attr_get :: "node \<Rightarrow> string \<Rightarrow> string \<Rightarrow> string" where
  "attr_get (Tag n a c ch) k d = (case map_of a k of None \<Rightarrow> d | Some v \<Rightarrow> v)"
| "attr_get (NavigableString s) k d = d"

fun has_attr :: "node \<Rightarrow> string \<Rightarrow> bool" where
  "has_attr (Tag n a c ch) k = (map_of a k \<noteq> None)"
| "has_attr (NavigableString s) k = False"

fun subscript :: "node \<Rightarrow> string \<Rightarrow> exn + string" where
  "subscript (Tag n a c ch) k = (case map_of a k of None \<Rightarrow> Inl (KeyError k) | Some v \<Rightarrow> Inr v)"
| "subscript (NavigableString s) k = Inl TypeError"

text \<open>\<^verbatim>\<open>tag.text\<close>: the strings below the tag, joined in document order.\<close>

fun get_text :: "node \<Rightarrow> string" where
  "get_text (Tag n a c ch) = concat (map get_text ch)"
| "get_text (NavigableString s) = s"

section \<open>String methods\<close>

text \<open>
  A Python string is a sequence of code points; a \<open>char\<close> of the model is a code point
  below 256. The white space that \<^verbatim>\<open>str.strip\<close> removes is, among these, U+0009 to U+000D,
  U+001C to U+001F, the space, U+0085 and U+00A0.
\<close>

definition is_space :: "char \<Rightarrow> bool" where
  "is_space c = (c \<in> set [CHR '' '', CHR 0x09, CHR 0x0A, CHR 0x0B, CHR 0x0C, CHR 0x0D,
                             CHR 0x1C, CHR 0x1D, CHR 0x1E, CHR 0x1F, CHR 0x85, CHR 0xA0])"

text \<open>\<^verbatim>\<open>s.strip()\<close>\<close>

definition strip :: "string \<Rightarrow> string" where
  "strip s = rev (dropWhile is_space (rev (dropWhile is_space s)))"

text \<open>\<^verbatim>\<open>s.split(sep)\<close> for a separator of one character: never an empty list.\<close>

fun split :: "char \<Rightarrow> string \<Rightarrow> string list" where
  "split sep [] = [[]]"
| "split sep (c # cs) =
     (if c = sep then [] # split sep cs
      else (case split sep cs of [] \<Rightarrow> [[c]] | w # ws \<Rightarrow> (c # w) # ws))"

text \<open>\<^verbatim>\<open>xs[-1]\<close>: \<^verbatim>\<open>IndexError\<close> on an empty list.\<close>

definition last_item :: "'a list \<Rightarrow> exn + 'a" where
  "last_item xs = (if xs = [] then Inl IndexError else Inr (last xs))"

text \<open>\<^verbatim>\<open>s.startswith(c)\<close> for one character.\<close>

fun startswith :: "string \<Rightarrow> char \<Rightarrow> bool" where
  "startswith [] c = False"
| "startswith (x # xs) c = (x = c)"

section \<open>The outside world\<close>

text \<open>
  Print statements are recorded as events that carry the values the line interpolates.
\<close>

datatype printed =
    Fetch_error string
  | Notification_sent
  | Failed_to_send string
  | Checked nat nat
  | Searching_at
  | Searching_in string string
  | An_error_occurred exn
  | Sleeping

text \<open>
  The file \<^verbatim>\<open>notified_ids.json\<close>: absent, not JSON at all, or a JSON array of strings
  (all the script ever writes there).
\<close>

datatype json_file = Absent | Garbage | Json_strings "string list"

text \<open>
  Everything the script reads from outside, and the library functions it calls, are
  fields of the environment:
  \<^item> \<open>session_get url params\<close> is \<^verbatim>\<open>session.get\<close> followed by \<^verbatim>\<open>raise_for_status\<close>,
    giving the response text;
  \<^item> \<open>BeautifulSoup\<close> is the HTML parser, \<open>quote\<close> is \<^verbatim>\<open>urllib.parse.quote\<close>;
  \<^item> \<open>fromisoformat\<close> is \<^verbatim>\<open>datetime.fromisoformat\<close> followed by
    \<^verbatim>\<open>replace(tzinfo=pytz.UTC)\<close>, \<open>None\<close> when it raises \<^verbatim>\<open>ValueError\<close>;
  \<^item> \<open>now\<close> is \<^verbatim>\<open>datetime.now(pytz.utc)\<close>;
  \<^item> \<open>naturaltime\<close> is \<^verbatim>\<open>humanize.naturaltime\<close> and \<open>isoformat_new_york\<close> is
    \<^verbatim>\<open>astimezone(pytz.timezone('America/New_York')).isoformat()\<close>; both do date
    arithmetic and raise (\<^verbatim>\<open>OverflowError\<close>) where the result leaves the range of
    \<^verbatim>\<open>datetime\<close>, as the conversion does for a timestamp within hours of
    \<^verbatim>\<open>0001-01-01T00:00:00\<close>: \<open>Inl\<close> is the exception;
  \<^item> \<open>environ\<close> is \<^verbatim>\<open>os.environ.get\<close>;
  \<^item> \<open>requests_post url payload headers\<close> is \<^verbatim>\<open>requests.post\<close> followed by
    \<^verbatim>\<open>raise_for_status\<close>;
  \<^item> \<open>list_of\<close> is \<^verbatim>\<open>list(...)\<close> of a set, in the order Python iterates it;
  \<^item> \<open>search_config\<close> is what \<^verbatim>\<open>load_search_config("searches.yml")\<close> returns or raises.
\<close>

record env =
  session_get :: "string \<Rightarrow> (string \<times> string) list \<Rightarrow> string http"
  BeautifulSoup :: "string \<Rightarrow> node"
  quote :: "string \<Rightarrow> string"
  fromisoformat :: "string \<Rightarrow> datetime option"
  now :: datetime
  naturaltime :: "timedelta \<Rightarrow> exn + string"
  isoformat_new_york :: "datetime \<Rightarrow> exn + string"
  environ :: "string \<Rightarrow> string option"
  requests_post :: "string \<Rightarrow> (string \<times> string) list \<Rightarrow> (string \<times> string) list \<Rightarrow> unit http"
  list_of :: "string set \<Rightarrow> string list"
  search_config :: "exn + (string \<times> string) list"

text \<open>
  What the script changes: the set \<^verbatim>\<open>notified_ids\<close> (one object, mutated in place by
  \<^verbatim>\<open>send_reddit_notifications\<close>), the notes posted to Pushbullet as (title, body) in the
  order of the requests, the printed lines, and the file of notified ids.
\<close>

record state =
  notified_ids :: "string set"
  pushes :: "(string \<times> string) list"
  stdout :: "printed list"
  notified_ids_file :: json_file

section \<open>Extraction of the posts\<close>

record post =
  post_id :: string
  post_title :: string
  post_author :: string
  post_link :: string
  post_time :: "datetime option"

text \<open>The body of the loop of \<^verbatim>\<open>parse_reddit_search_results\<close>, for one result node.\<close>

definition parse_result :: "env \<Rightarrow> node \<Rightarrow> exn + post" where
  "parse_result e result =
     (case last_item (split CHR ''_'' (attr_get result ''data-fullname'' '''')) of
        Inl ex \<Rightarrow> Inl ex
      | Inr pid \<Rightarrow>
     (let title_element = find_first result ''a'' (Some ''search-title'');
          title = (case title_element of
                     Some t \<Rightarrow> strip (get_text t)
                   | None \<Rightarrow> ''No title found'');
          author_element = find_first result ''a'' (Some ''author'');
          author = (case author_element of
                      Some a \<Rightarrow> get_text a
                    | None \<Rightarrow> ''Unknown'')
      in case (case title_element of
                 Some t \<Rightarrow> if has_attr t ''href'' then subscript t ''href'' else Inr ''''
               | None \<Rightarrow> Inr '''') of
           Inl ex \<Rightarrow> Inl ex
         | Inr href \<Rightarrow>
     (let link = (if startswith href CHR ''/'' then ''https://www.reddit.com'' @ href
                  else href);
          time_element = find_first result ''time'' None
      in case (case time_element of
                 Some t \<Rightarrow>
                   if has_attr t ''datetime''
                   then (case subscript t ''datetime'' of
                           Inl ex \<Rightarrow> Inl ex
                         | Inr time_str \<Rightarrow> Inr (fromisoformat e time_str))
                   else Inr None
               | None \<Rightarrow> Inr None) of
           Inl ex \<Rightarrow> Inl ex
         | Inr tm \<Rightarrow>
             Inr \<lparr>post_id = pid, post_title = title, post_author = author,
                  post_link = link, post_time = tm\<rparr>)))"

fun parse_loop :: "env \<Rightarrow> node list \<Rightarrow> post list \<Rightarrow> exn + post list" where
  "parse_loop e [] results = Inr results"
| "parse_loop e (result # rest) results =
     (case parse_result e result of
        Inl ex \<Rightarrow> Inl ex
      | Inr post_data \<Rightarrow> parse_loop e rest (results @ [post_data]))"

definition parse_reddit_search_results :: "env \<Rightarrow> node \<Rightarrow> exn + post list" where
  "parse_reddit_search_results e soup =
     parse_loop e (find_all soup ''div'' (Some ''search-result-link'')) []"

section \<open>Fetching\<close>

definition search_url :: "env \<Rightarrow> string \<Rightarrow> string" where
  "search_url e subreddit = ''https://old.reddit.com/r/'' @ quote e subreddit @ ''/search''"

definition search_params :: "string \<Rightarrow> (string \<times> string) list" where
  "search_params search_query =
     [(''q'', search_query), (''restrict_sr'', ''on''), (''include_over_18'', ''on''),
      (''sort'', ''new''), (''t'', ''week'')]"

definition download_reddit_search :: "env \<Rightarrow> string \<Rightarrow> string \<Rightarrow> state \<Rightarrow> state \<times> node option" where
  "download_reddit_search e subreddit search_query s =
     (let params = search_params search_query;
          url = search_url e subreddit
      in case session_get e url params of
           Response text \<Rightarrow> (s, Some (BeautifulSoup e text))
         | RequestException err \<Rightarrow> (s\<lparr>stdout := stdout s @ [Fetch_error err]\<rparr>, None))"

text \<open>
  \<^verbatim>\<open>if soup:\<close> is true of every BeautifulSoup object (a tag is truthy whatever it holds),
  so only \<^verbatim>\<open>None\<close> takes the second return.
\<close>

definition fetch_and_parse_reddit_search ::
  "env \<Rightarrow> string \<Rightarrow> string \<Rightarrow> state \<Rightarrow> state \<times> (exn + post list)" where
  "fetch_and_parse_reddit_search e subreddit search_query s =
     (case download_reddit_search e subreddit search_query s of
        (s0, Some soup) \<Rightarrow> (s0, parse_reddit_search_results e soup)
      | (s0, None) \<Rightarrow> (s0, Inr []))"

section \<open>Notifying\<close>

text \<open>
  \<^verbatim>\<open>not api_key\<close> holds of \<^verbatim>\<open>None\<close> and of the empty string. The request is recorded in
  \<open>pushes\<close> when it is made, whatever comes back.
\<close>

definition send_pushbullet_notification ::
  "env \<Rightarrow> string \<Rightarrow> string \<Rightarrow> state \<Rightarrow> state \<times> (exn + unit)" where
  "send_pushbullet_notification e title body s =
     (case environ e ''PUSHBULLET_API_KEY'' of
        None \<Rightarrow> (s, Inl ValueError)
      | Some api_key \<Rightarrow>
          if api_key = [] then (s, Inl ValueError)
          else
            (let url = ''https://api.pushbullet.com/v2/pushes'';
                 headers = [(''Access-Token'', api_key), (''Content-Type'', ''application/json'')];
                 data = [(''type'', ''note''), (''title'', title), (''body'', body)];
                 s1 = s\<lparr>pushes := pushes s @ [(title, body)]\<rparr>
             in case requests_post e url data headers of
                  Response _ \<Rightarrow> (s1\<lparr>stdout := stdout s1 @ [Notification_sent]\<rparr>, Inr ())
                | RequestException err \<Rightarrow>
                    (s1\<lparr>stdout := stdout s1 @ [Failed_to_send err]\<rparr>, Inr ())))"

text \<open>
  The title and the body of the note for one post (lines 137 to 149 of the script).
  Subtracting \<^verbatim>\<open>None\<close> from a datetime raises \<^verbatim>\<open>TypeError\<close>; the title is built first,
  then the body, and an exception of \<^verbatim>\<open>naturaltime\<close> or of the conversion to New York
  time leaves the formatting.
\<close>

definition format_notification :: "env \<Rightarrow> string \<Rightarrow> post \<Rightarrow> exn + (string \<times> string)" where
  "format_notification e subreddit p =
     (case post_time p of
        None \<Rightarrow> Inl TypeError
      | Some t \<Rightarrow>
          (let time_diff = now e - t
           in case naturaltime e time_diff of
                Inl ex \<Rightarrow> Inl ex
              | Inr ago \<Rightarrow>
                  (let title = ''New post in r/'' @ subreddit @ '' by '' @ post_author p @ '' ''
                                 @ ago
                   in case isoformat_new_york e t of
                        Inl ex \<Rightarrow> Inl ex
                      | Inr time_text \<Rightarrow>
                          (let body = ''Title: '' @ post_title p @ [CHR 0x0A]
                                        @ ''Author: '' @ post_author p @ [CHR 0x0A]
                                        @ ''Time: '' @ time_text @ [CHR 0x0A]
                                        @ ''Link: '' @ post_link p
                           in Inr (title, body)))))"

text \<open>
  The loop over the posts, with the counter \<^verbatim>\<open>notified_cnt\<close>. An exception leaves the loop
  with the state as it is at that point.
\<close>

fun notify_loop :: "env \<Rightarrow> string \<Rightarrow> post list \<Rightarrow> state \<Rightarrow> nat \<Rightarrow> state \<times> (exn + nat)" where
  "notify_loop e subreddit [] s notified_cnt = (s, Inr notified_cnt)"
| "notify_loop e subreddit (p # ps) s notified_cnt =
     (if post_id p \<notin> notified_ids s then
        (case format_notification e subreddit p of
           Inl ex \<Rightarrow> (s, Inl ex)
         | Inr (title, body) \<Rightarrow>
             (case send_pushbullet_notification e title body s of
                (s1, Inl ex) \<Rightarrow> (s1, Inl ex)
              | (s1, Inr _) \<Rightarrow>
                  notify_loop e subreddit ps
                    (s1\<lparr>notified_ids := insert (post_id p) (notified_ids s1)\<rparr>)
                    (notified_cnt + 1)))
      else notify_loop e subreddit ps s notified_cnt)"

definition send_reddit_notifications ::
  "env \<Rightarrow> string \<Rightarrow> string \<Rightarrow> state \<Rightarrow> state \<times> (exn + unit)" where
  "send_reddit_notifications e subreddit search_query s =
     (case fetch_and_parse_reddit_search e subreddit search_query s of
        (s0, Inl ex) \<Rightarrow> (s0, Inl ex)
      | (s0, Inr posts) \<Rightarrow>
          (case notify_loop e subreddit posts s0 0 of
             (s1, Inl ex) \<Rightarrow> (s1, Inl ex)
           | (s1, Inr notified_cnt) \<Rightarrow>
               (s1\<lparr>stdout := stdout s1 @ [Checked (length posts) notified_cnt]\<rparr>, Inr ())))"

section \<open>The main loop\<close>

text \<open>\<^verbatim>\<open>set(json.load(f))\<close>, where only \<^verbatim>\<open>FileNotFoundError\<close> is caught.\<close>

fun load_notified_ids :: "json_file \<Rightarrow> exn + string set" where
  "load_notified_ids Absent = Inr {}"
| "load_notified_ids Garbage = Inl JSONDecodeError"
| "load_notified_ids (Json_strings xs) = Inr (set xs)"

text \<open>
  \<^verbatim>\<open>json.dump(list(notified_ids), f)\<close> into the file opened for writing; the write is
  taken to succeed.
\<close>

definition save_notified_ids :: "env \<Rightarrow> state \<Rightarrow> state" where
  "save_notified_ids e s = s\<lparr>notified_ids_file := Json_strings (list_of e (notified_ids s))\<rparr>"

text \<open>The \<^verbatim>\<open>for search_config in cfg\<close> loop inside the \<^verbatim>\<open>try\<close>.\<close>

fun query_loop :: "env \<Rightarrow> (string \<times> string) list \<Rightarrow> state \<Rightarrow> state \<times> (exn + unit)" where
  "query_loop e [] s = (s, Inr ())"
| "query_loop e ((subreddit, search_query) # rest) s =
     (case send_reddit_notifications e subreddit search_query
             (s\<lparr>stdout := stdout s @ [Searching_in subreddit search_query]\<rparr>) of
        (s1, Inl ex) \<Rightarrow> (s1, Inl ex)
      | (s1, Inr _) \<Rightarrow> query_loop e rest s1)"

text \<open>
  One turn of \<^verbatim>\<open>while True\<close>: the queries, then the save, both inside the \<^verbatim>\<open>try\<close>; every
  exception of \<open>exn\<close> is an \<^verbatim>\<open>Exception\<close> and is caught by the handler.
\<close>

definition run_pass :: "env \<Rightarrow> (string \<times> string) list \<Rightarrow> state \<Rightarrow> state" where
  "run_pass e cfg s =
     (let s0 = s\<lparr>stdout := stdout s @ [Searching_at]\<rparr>;
          s2 = (case query_loop e cfg s0 of
                  (s1, Inr _) \<Rightarrow> save_notified_ids e s1
                | (s1, Inl ex) \<Rightarrow> s1\<lparr>stdout := stdout s1 @ [An_error_occurred ex]\<rparr>)
      in s2\<lparr>stdout := stdout s2 @ [Sleeping]\<rparr>)"

text \<open>
  \<^verbatim>\<open>while True\<close> never ends, so the loop is run for a given number of turns; turn \<open>i\<close> sees
  the outside world \<open>worlds i\<close>.
\<close>

fun passes :: "nat \<Rightarrow> (nat \<Rightarrow> env) \<Rightarrow> (string \<times> string) list \<Rightarrow> state \<Rightarrow> state" where
  "passes 0 worlds cfg s = s"
| "passes (Suc n) worlds cfg s = passes n (\<lambda>i. worlds (Suc i)) cfg (run_pass (worlds 0) cfg s)"

text \<open>
  \<^verbatim>\<open>main\<close>: \<open>Inl\<close> when an exception leaves the process (which can only happen before the
  loop), otherwise the state after \<open>n\<close> turns of the loop.
\<close>

definition main :: "nat \<Rightarrow> (nat \<Rightarrow> env) \<Rightarrow> state \<Rightarrow> exn + state" where
  "main n worlds s =
     (case search_config (worlds 0) of
        Inl ex \<Rightarrow> Inl ex
      | Inr cfg \<Rightarrow>
          (case load_notified_ids (notified_ids_file s) of
             Inl ex \<Rightarrow> Inl ex
           | Inr ids \<Rightarrow> Inr (passes n worlds cfg (s\<lparr>notified_ids := ids\<rparr>))))"

section \<open>Example pages and worlds\<close>

text \<open>
  Three result nodes as old.reddit.com serves them (two complete ones, with the ids
  \<open>abc\<close> and \<open>def\<close>, and one with nothing but its class), and pages made of them.
\<close>

definition result_abc :: node where
  "result_abc =
     Tag ''div'' [(''data-fullname'', ''t3_abc'')] [''search-result'', ''search-result-link'']
       [Tag ''a'' [(''href'', ''/r/sub/comments/abc/first/'')] [''search-title'']
          [NavigableString '' First post ''],
        Tag ''a'' [(''href'', ''https://old.reddit.com/user/alice'')] [''author'']
          [NavigableString ''alice''],
        Tag ''time'' [(''datetime'', ''2024-01-01T00:00:00+00:00'')] []
          [NavigableString ''1 day ago'']]"

definition result_def :: node where
  "result_def =
     Tag ''div'' [(''data-fullname'', ''t3_def'')] [''search-result'', ''search-result-link'']
       [Tag ''a'' [(''href'', ''https://example.org/second'')] [''search-title'']
          [NavigableString ''Second post''],
        Tag ''a'' [(''href'', ''https://old.reddit.com/user/bob'')] [''author'']
          [NavigableString ''bob''],
        Tag ''time'' [(''datetime'', ''2024-01-01T00:00:00+00:00'')] []
          [NavigableString ''1 day ago'']]"

definition result_bare :: node where
  "result_bare = Tag ''div'' [] [''search-result-link''] []"

definition page_of :: "node list \<Rightarrow> node" where
  "page_of results = Tag ''[document]'' [] [] [Tag ''html'' [] [] [Tag ''body'' [] [] results]]"

text \<open>
  A world: \<open>site\<close> maps the URL of a search to the page it answers with or to the error
  of the request, \<open>key\<close> is the value of \<^verbatim>\<open>PUSHBULLET_API_KEY\<close>, \<open>answer\<close> is what every
  request to Pushbullet comes back with.
\<close>

definition world :: "(string \<Rightarrow> node http) \<Rightarrow> string option \<Rightarrow> unit http \<Rightarrow> env" where
  "world site key answer =
     \<lparr>session_get = (\<lambda>url params. case site url of
                         Response _ \<Rightarrow> Response url
                       | RequestException err \<Rightarrow> RequestException err),
      BeautifulSoup = (\<lambda>text. case site text of
                         Response page \<Rightarrow> page
                       | RequestException err \<Rightarrow> NavigableString []),
      quote = (\<lambda>s. s),
      fromisoformat = (\<lambda>ts. if ts = ''2024-01-01T00:00:00+00:00'' then Some 0 else None),
      now = 60000000,
      naturaltime = (\<lambda>d. Inr ''a minute ago''),
      isoformat_new_york = (\<lambda>t. Inr ''2023-12-31T19:00:00-05:00''),
      environ = (\<lambda>k. if k = ''PUSHBULLET_API_KEY'' then key else None),
      requests_post = (\<lambda>url data headers. answer),
      list_of = (\<lambda>S. filter (\<lambda>x. x \<in> S) [''abc'', ''def'', '''']),
      search_config = Inr [(''a'', ''q''), (''b'', ''q'')]\<rparr>"

definition start :: "string set \<Rightarrow> state" where
  "start ids = \<lparr>notified_ids = ids, pushes = [], stdout = [], notified_ids_file = Absent\<rparr>"

text \<open>The posts that the extraction makes of the three example nodes.\<close>

definition post_abc :: post where
  "post_abc =
     \<lparr>post_id = ''abc'', post_title = ''First post'', post_author = ''alice'',
      post_link = ''https://www.reddit.com/r/sub/comments/abc/first/'', post_time = Some 0\<rparr>"

definition post_def :: post where
  "post_def =
     \<lparr>post_id = ''def'', post_title = ''Second post'', post_author = ''bob'',
      post_link = ''https://example.org/second'', post_time = Some 0\<rparr>"

definition post_bare :: post where
  "post_bare =
     \<lparr>post_id = '''', post_title = ''No title found'', post_author = ''Unknown'',
      post_link = '''', post_time = None\<rparr>"

text \<open>
  The worlds of the examples: a site whose every search answers with the page of the
  posts \<open>abc\<close> and \<open>def\<close>, seen with the key set and Pushbullet answering, with the key set
  and Pushbullet failing, and with no key; a site whose search in \<open>r/a\<close> answers with the
  bare node and every other search with the two posts; and a site that is down.
\<close>

definition site_two :: "string \<Rightarrow> node http" where
  "site_two url = Response (page_of [result_abc, result_def])"

definition world_two :: env where
  "world_two = world site_two (Some ''k'') (Response ())"

definition world_failing :: env where
  "world_failing = world site_two (Some ''k'') (RequestException ''503 Server Error'')"

definition world_no_key :: env where
  "world_no_key = world site_two None (Response ())"

definition site_bare_in_a :: "string \<Rightarrow> node http" where
  "site_bare_in_a url =
     (if url = ''https://old.reddit.com/r/a/search'' then Response (page_of [result_bare])
      else Response (page_of [result_abc, result_def]))"

definition world_bare_in_a :: env where
  "world_bare_in_a = world site_bare_in_a (Some ''k'') (Response ())"

definition world_down :: env where
  "world_down = world (\<lambda>url. RequestException ''timed out'') (Some ''k'') (Response ())"

text \<open>The note for the post \<open>def\<close> found in \<open>r/a\<close>, in these worlds.\<close>

definition note_def :: "string \<times> string" where
  "note_def =
     (''New post in r/a by bob a minute ago'',
      ''Title: Second post'' @ [CHR 0x0A] @ ''Author: bob'' @ [CHR 0x0A]
        @ ''Time: 2023-12-31T19:00:00-05:00'' @ [CHR 0x0A]
        @ ''Link: https://example.org/second'')"

section \<open>Properties of the extraction\<close>

lemma split_not_Nil: "split sep s \<noteq> []"
  by (induction s) (auto split: list.splits)

lemma has_attr_subscript: "has_attr t k \<Longrightarrow> \<exists>v. subscript t k = Inr v"
  by (cases t) auto

lemma not_has_attr_subscript: "\<not> has_attr t k \<Longrightarrow> \<nexists>v. subscript t k = Inr v"
  by (cases t) auto

lemma last_item_split: "last_item (split sep s) = Inr (last (split sep s))"
  by (simp add: last_item_def split_not_Nil)

lemma parse_result_Inr:
  "\<exists>p. parse_result e result = Inr p
     \<and> (find_first result ''a'' (Some ''search-title'') = None \<longrightarrow>
          post_title p = ''No title found'' \<and> post_link p = '''')
     \<and> (\<forall>t. find_first result ''a'' (Some ''search-title'') = Some t \<and> \<not> has_attr t ''href'' \<longrightarrow>
            post_link p = '''')
     \<and> (\<forall>t h. find_first result ''a'' (Some ''search-title'') = Some t \<and> subscript t ''href'' = Inr h \<longrightarrow>
            post_link p = (if startswith h CHR ''/'' then ''https://www.reddit.com'' @ h else h))
     \<and> (find_first result ''a'' (Some ''author'') = None \<longrightarrow> post_author p = ''Unknown'')
     \<and> (find_first result ''time'' None = None \<longrightarrow> post_time p = None)
     \<and> (\<forall>t. find_first result ''time'' None = Some t \<and> \<not> has_attr t ''datetime'' \<longrightarrow>
            post_time p = None)
     \<and> (\<forall>t ts. find_first result ''time'' None = Some t \<and> subscript t ''datetime'' = Inr ts \<longrightarrow>
            post_time p = fromisoformat e ts)"
  unfolding parse_result_def last_item_split
  apply (cases "find_first result ''a'' (Some ''search-title'')";
         cases "find_first result ''a'' (Some ''author'')";
         cases "find_first result ''time'' None")
  apply (auto simp: Let_def dest!: has_attr_subscript not_has_attr_subscript split: sum.splits)
  done

lemma parse_loop_Inr:
  "\<exists>ps. parse_loop e rs acc = Inr (acc @ ps) \<and> list_all2 (\<lambda>r p. parse_result e r = Inr p) rs ps"
proof (induction rs arbitrary: acc)
  case Nil
  then show ?case by simp
next
  case (Cons r rs)
  obtain p where p: "parse_result e r = Inr p"
    using parse_result_Inr [of e r] by blast
  obtain ps where ps: "parse_loop e rs (acc @ [p]) = Inr ((acc @ [p]) @ ps)"
      "list_all2 (\<lambda>r p. parse_result e r = Inr p) rs ps"
    using Cons.IH [of "acc @ [p]"] by blast
  have "parse_loop e (r # rs) acc = Inr (acc @ p # ps)"
    using p ps(1) by simp
  moreover have "list_all2 (\<lambda>r p. parse_result e r = Inr p) (r # rs) (p # ps)"
    using p ps(2) by simp
  ultimately show ?case by blast
qed

text \<open>
  C6. The extraction never raises: it returns one post for each search-result node of
  the page, in the order of the nodes (so none for a page without such a node), and for
  each node a missing title element gives the title \<open>No title found\<close> and the link
  \<open>''''\<close>, a title element without \<open>href\<close> gives the link \<open>''''\<close>, a link that begins
  with \<open>/\<close> is prefixed with \<open>https://www.reddit.com\<close> and any other link is kept, a
  missing author element gives the author \<open>Unknown\<close>, and a missing time element, a
  time element without \<open>datetime\<close> or a value that \<open>fromisoformat\<close> rejects gives no
  timestamp; each of these holds whatever the other fields are.
\<close>

theorem parse_reddit_search_results_never_raises:
  "\<exists>posts. parse_reddit_search_results e soup = Inr posts
     \<and> length posts = length (find_all soup ''div'' (Some ''search-result-link''))
     \<and> (\<forall>i < length posts. \<forall>result p.
           result = find_all soup ''div'' (Some ''search-result-link'') ! i \<and> p = posts ! i \<longrightarrow>
             (find_first result ''a'' (Some ''search-title'') = None \<longrightarrow>
                post_title p = ''No title found'' \<and> post_link p = '''')
           \<and> (\<forall>t. find_first result ''a'' (Some ''search-title'') = Some t \<and> \<not> has_attr t ''href'' \<longrightarrow>
                post_link p = '''')
           \<and> (\<forall>t h. find_first result ''a'' (Some ''search-title'') = Some t
                     \<and> subscript t ''href'' = Inr h \<longrightarrow>
                post_link p = (if startswith h CHR ''/'' then ''https://www.reddit.com'' @ h else h))
           \<and> (find_first result ''a'' (Some ''author'') = None \<longrightarrow> post_author p = ''Unknown'')
           \<and> (find_first result ''time'' None = None \<longrightarrow> post_time p = None)
           \<and> (\<forall>t. find_first result ''time'' None = Some t \<and> \<not> has_attr t ''datetime'' \<longrightarrow>
                post_time p = None)
           \<and> (\<forall>t ts. find_first result ''time'' None = Some t \<and> subscript t ''datetime'' = Inr ts \<longrightarrow>
                post_time p = fromisoformat e ts))"
proof -
  let ?rs = "find_all soup ''div'' (Some ''search-result-link'')"
  obtain ps where ps: "parse_loop e ?rs [] = Inr ps"
      "list_all2 (\<lambda>r p. parse_result e r = Inr p) ?rs ps"
    using parse_loop_Inr [of e ?rs "[]"] by auto
  have len: "length ps = length ?rs"
    using ps(2) by (simp add: list_all2_lengthD)
  have each: "parse_result e (?rs ! i) = Inr (ps ! i)" if "i < length ps" for i
    using ps(2) that len by (simp add: list_all2_conv_all_nth)
  have third: "\<forall>i < length ps. \<forall>result p.
           result = ?rs ! i \<and> p = ps ! i \<longrightarrow>
             (find_first result ''a'' (Some ''search-title'') = None \<longrightarrow>
                post_title p = ''No title found'' \<and> post_link p = '''')
           \<and> (\<forall>t. find_first result ''a'' (Some ''search-title'') = Some t \<and> \<not> has_attr t ''href'' \<longrightarrow>
                post_link p = '''')
           \<and> (\<forall>t h. find_first result ''a'' (Some ''search-title'') = Some t
                     \<and> subscript t ''href'' = Inr h \<longrightarrow>
                post_link p = (if startswith h CHR ''/'' then ''https://www.reddit.com'' @ h else h))
           \<and> (find_first result ''a'' (Some ''author'') = None \<longrightarrow> post_author p = ''Unknown'')
           \<and> (find_first result ''time'' None = None \<longrightarrow> post_time p = None)
           \<and> (\<forall>t. find_first result ''time'' None = Some t \<and> \<not> has_attr t ''datetime'' \<longrightarrow>
                post_time p = None)
           \<and> (\<forall>t ts. find_first result ''time'' None = Some t \<and> subscript t ''datetime'' = Inr ts \<longrightarrow>
                post_time p = fromisoformat e ts)"
  proof (intro allI impI)
    fix i result p
    assume i: "i < length ps" and rp: "result = ?rs ! i \<and> p = ps ! i"
    have "parse_result e result = Inr p" using each [OF i] rp by simp
    then show "(find_first result ''a'' (Some ''search-title'') = None \<longrightarrow>
                post_title p = ''No title found'' \<and> post_link p = '''')
           \<and> (\<forall>t. find_first result ''a'' (Some ''search-title'') = Some t \<and> \<not> has_attr t ''href'' \<longrightarrow>
                post_link p = '''')
           \<and> (\<forall>t h. find_first result ''a'' (Some ''search-title'') = Some t
                     \<and> subscript t ''href'' = Inr h \<longrightarrow>
                post_link p = (if startswith h CHR ''/'' then ''https://www.reddit.com'' @ h else h))
           \<and> (find_first result ''a'' (Some ''author'') = None \<longrightarrow> post_author p = ''Unknown'')
           \<and> (find_first result ''time'' None = None \<longrightarrow> post_time p = None)
           \<and> (\<forall>t. find_first result ''time'' None = Some t \<and> \<not> has_attr t ''datetime'' \<longrightarrow>
                post_time p = None)
           \<and> (\<forall>t ts. find_first result ''time'' None = Some t \<and> subscript t ''datetime'' = Inr ts \<longrightarrow>
                post_time p = fromisoformat e ts)"
      using parse_result_Inr [of e result] by auto
  qed
  have first: "parse_reddit_search_results e soup = Inr ps"
    using ps(1) by (simp add: parse_reddit_search_results_def)
  show ?thesis
    using first len third by blast
qed

lemma parse_of_result_abc: "parse_result (world site key answer) result_abc = Inr post_abc"
  by (simp add: parse_result_def result_abc_def post_abc_def world_def find_first_def find_all_def
      last_item_def strip_def is_space_def)

lemma parse_of_result_def: "parse_result (world site key answer) result_def = Inr post_def"
  by (simp add: parse_result_def result_def_def post_def_def world_def find_first_def find_all_def
      last_item_def strip_def is_space_def)

lemma parse_of_result_bare: "parse_result (world site key answer) result_bare = Inr post_bare"
  by (simp add: parse_result_def result_bare_def post_bare_def world_def find_first_def find_all_def
      last_item_def strip_def is_space_def)

lemma is_tag_result [simp]:
  "is_tag ''div'' (Some ''search-result-link'') result_abc"
  "is_tag ''div'' (Some ''search-result-link'') result_def"
  "is_tag ''div'' (Some ''search-result-link'') result_bare"
  by (simp_all add: result_abc_def result_def_def result_bare_def)

lemma descendants_results:
  "filter (is_tag ''div'' (Some ''search-result-link'')) (descendants result_abc) = []"
  "filter (is_tag ''div'' (Some ''search-result-link'')) (descendants result_def) = []"
  "filter (is_tag ''div'' (Some ''search-result-link'')) (descendants result_bare) = []"
  by (simp_all add: result_abc_def result_def_def result_bare_def)

lemma find_all_page_of:
  "find_all (page_of rs) ''div'' (Some ''search-result-link'')
     = filter (is_tag ''div'' (Some ''search-result-link'')) (concat (map (\<lambda>x. x # descendants x) rs))"
  by (simp add: find_all_def page_of_def)

lemma parse_page_abc_def:
  "parse_reddit_search_results (world site key answer) (page_of [result_abc, result_def])
     = Inr [post_abc, post_def]"
  by (simp add: parse_reddit_search_results_def find_all_page_of descendants_results
      parse_of_result_abc parse_of_result_def)

lemma parse_page_bare:
  "parse_reddit_search_results (world site key answer) (page_of [result_bare]) = Inr [post_bare]"
  by (simp add: parse_reddit_search_results_def find_all_page_of descendants_results
      parse_of_result_bare)

lemma find_bare:
  "find_first result_bare ''a'' (Some ''search-title'') = None"
  "find_first result_bare ''a'' (Some ''author'') = None"
  "find_first result_bare ''time'' None = None"
  by (simp_all add: find_first_def find_all_def result_bare_def)

lemma find_all_abc_bare:
  "find_all (page_of [result_abc, result_bare]) ''div'' (Some ''search-result-link'') = [result_abc, result_bare]"
  by (simp add: find_all_page_of descendants_results)

lemma parse_abc_bare: "parse_reddit_search_results (world site key answer)
       (page_of [result_abc, result_bare]) = Inr [post_abc, post_bare]"
  by (simp add: parse_reddit_search_results_def find_all_page_of descendants_results
      parse_of_result_abc parse_of_result_bare)

theorem parse_reddit_search_results_never_raises_witness:
  "parse_reddit_search_results (world (\<lambda>u. Response (page_of [])) None (Response ()))
       (page_of [result_abc, result_bare]) = Inr [post_abc, post_bare]
   \<and> find_first result_bare ''a'' (Some ''search-title'') = None
   \<and> find_first result_bare ''a'' (Some ''author'') = None
   \<and> find_first result_bare ''time'' None = None
   \<and> post_title post_bare = ''No title found'' \<and> post_link post_bare = ''''
   \<and> post_author post_bare = ''Unknown'' \<and> post_time post_bare = None"
proof -
  note at_page = parse_reddit_search_results_never_raises
    [of "world (\<lambda>u. Response (page_of [])) None (Response ())" "page_of [result_abc, result_bare]",
     unfolded parse_abc_bare find_all_abc_bare, simplified]
  have "post_title post_bare = ''No title found'' \<and> post_link post_bare = ''''
      \<and> post_author post_bare = ''Unknown'' \<and> post_time post_bare = None"
    using at_page [rule_format, of "Suc 0"] by (simp add: find_bare)
  then show ?thesis
    by (simp add: parse_abc_bare find_bare)
qed

section \<open>Properties of the notification loop\<close>

lemma send_pushbullet_notification_Inl:
  "send_pushbullet_notification e title body s = (s', Inl ex) \<Longrightarrow>
     s' = s \<and> ex = ValueError
     \<and> (environ e ''PUSHBULLET_API_KEY'' = None \<or> environ e ''PUSHBULLET_API_KEY'' = Some [])"
  by (auto simp: send_pushbullet_notification_def Let_def split: option.splits if_splits http.splits)

lemma send_pushbullet_notification_Inr:
  "send_pushbullet_notification e title body s = (s', Inr u) \<Longrightarrow>
     notified_ids s' = notified_ids s \<and> notified_ids_file s' = notified_ids_file s
     \<and> pushes s' = pushes s @ [(title, body)]
     \<and> (\<exists>k. environ e ''PUSHBULLET_API_KEY'' = Some k \<and> k \<noteq> [])"
  by (auto simp: send_pushbullet_notification_def Let_def split: option.splits if_splits http.splits)

lemma send_pushbullet_notification_no_key:
  "environ e ''PUSHBULLET_API_KEY'' = None \<or> environ e ''PUSHBULLET_API_KEY'' = Some [] \<Longrightarrow>
     send_pushbullet_notification e title body s = (s, Inl ValueError)"
  by (auto simp: send_pushbullet_notification_def)

lemma format_notification_None:
  "post_time p = None \<Longrightarrow> format_notification e subreddit p = Inl TypeError"
  by (simp add: format_notification_def)

lemma format_notification_overflow:
  "post_time p = Some t \<Longrightarrow> naturaltime e (now e - t) = Inr ago \<Longrightarrow>
   isoformat_new_york e t = Inl ex \<Longrightarrow> format_notification e subreddit p = Inl ex"
  by (simp add: format_notification_def)

lemma notify_loop_news:
  "notify_loop e subreddit ps s c = (s', r) \<Longrightarrow>
   \<exists>news. subseq news ps
     \<and> (\<forall>p \<in> set news. post_id p \<notin> notified_ids s)
     \<and> distinct (map post_id news)
     \<and> map Inr (pushes s') = map Inr (pushes s) @ map (format_notification e subreddit) news
     \<and> notified_ids s' = notified_ids s \<union> post_id ` set news
     \<and> notified_ids_file s' = notified_ids_file s
     \<and> (\<forall>c'. r = Inr c' \<longrightarrow> c' = c + length news \<and> post_id ` set ps \<subseteq> notified_ids s')"
proof (induction ps arbitrary: s c)
  case Nil
  then show ?case by (intro exI [of _ "[]"]) auto
next
  case (Cons p ps)
  show ?case
  proof (cases "post_id p \<in> notified_ids s")
    case True
    then have "notify_loop e subreddit ps s c = (s', r)"
      using Cons.prems by simp
    from Cons.IH [OF this] obtain news where n: "subseq news ps"
      "\<forall>p \<in> set news. post_id p \<notin> notified_ids s"
      "distinct (map post_id news)"
      "map Inr (pushes s') = map Inr (pushes s) @ map (format_notification e subreddit) news"
      "notified_ids s' = notified_ids s \<union> post_id ` set news"
      "notified_ids_file s' = notified_ids_file s"
      "\<forall>c'. r = Inr c' \<longrightarrow> c' = c + length news \<and> post_id ` set ps \<subseteq> notified_ids s'"
      by blast
    show ?thesis
      using n True by (intro exI [of _ news]) auto
  next
    case new: False
    show ?thesis
    proof (cases "format_notification e subreddit p")
      case (Inl ex)
      then have "s' = s" "r = Inl ex"
        using Cons.prems new by auto
      then show ?thesis by (intro exI [of _ "[]"]) auto
    next
      case (Inr tb)
      obtain title body where tb: "tb = (title, body)" by (cases tb)
      obtain s1 r1 where sp: "send_pushbullet_notification e title body s = (s1, r1)"
        by (cases "send_pushbullet_notification e title body s")
      show ?thesis
      proof (cases r1)
        case (Inl ex)
        then have "s' = s" "r = Inl ex"
          using Cons.prems new Inr tb sp send_pushbullet_notification_Inl [of e title body s s1 ex]
          by auto
        then show ?thesis by (intro exI [of _ "[]"]) auto
      next
        case r1: (Inr u)
        let ?s2 = "s1\<lparr>notified_ids := insert (post_id p) (notified_ids s1)\<rparr>"
        have rest: "notify_loop e subreddit ps ?s2 (c + 1) = (s', r)"
          using Cons.prems new Inr tb sp r1 by simp
        have s1: "notified_ids s1 = notified_ids s" "notified_ids_file s1 = notified_ids_file s"
          "pushes s1 = pushes s @ [(title, body)]"
          using send_pushbullet_notification_Inr [of e title body s s1 u] sp r1 by auto
        from Cons.IH [OF rest] obtain news where n: "subseq news ps"
          "\<forall>q \<in> set news. post_id q \<notin> notified_ids ?s2"
          "distinct (map post_id news)"
          "map Inr (pushes s') = map Inr (pushes ?s2) @ map (format_notification e subreddit) news"
          "notified_ids s' = notified_ids ?s2 \<union> post_id ` set news"
          "notified_ids_file s' = notified_ids_file ?s2"
          "\<forall>c'. r = Inr c' \<longrightarrow> c' = (c + 1) + length news \<and> post_id ` set ps \<subseteq> notified_ids s'"
          by blast
        show ?thesis
          using n new s1 Inr tb by (intro exI [of _ "p # news"]) auto
      qed
    qed
  qed
qed

lemma notify_loop_skip:
  "post_id ` set ps \<subseteq> notified_ids s \<Longrightarrow> notify_loop e subreddit ps s c = (s, Inr c)"
  by (induction ps) auto

lemma notify_loop_mono:
  "notified_ids s \<subseteq> notified_ids (fst (notify_loop e subreddit ps s c))"
  using notify_loop_news [of e subreddit ps s c] by (cases "notify_loop e subreddit ps s c") auto

lemma notify_loop_raises_again:
  "notify_loop e subreddit ps s c = (s', Inl ex) \<Longrightarrow>
   environ e2 ''PUSHBULLET_API_KEY'' = environ e ''PUSHBULLET_API_KEY'' \<Longrightarrow>
   \<forall>p. isl (format_notification e subreddit p) \<longrightarrow> isl (format_notification e2 subreddit p) \<Longrightarrow>
   notified_ids s2 = notified_ids s' \<Longrightarrow>
   \<exists>ex2. notify_loop e2 subreddit ps s2 c2 = (s2, Inl ex2)"
proof (induction ps arbitrary: s c)
  case Nil
  then show ?case by simp
next
  case (Cons p ps)
  show ?case
  proof (cases "post_id p \<in> notified_ids s")
    case True
    then have "notify_loop e subreddit ps s c = (s', Inl ex)"
      using Cons.prems by simp
    moreover have "post_id p \<in> notified_ids s2"
      using True notify_loop_mono [of s e subreddit "p # ps" c] Cons.prems by auto
    ultimately show ?thesis
      using Cons.IH Cons.prems by simp
  next
    case new: False
    show ?thesis
    proof (cases "format_notification e subreddit p")
      case (Inl ex1)
      then have same: "s' = s"
        using Cons.prems new by auto
      have "isl (format_notification e2 subreddit p)"
        using Inl Cons.prems(3) by (metis sum.disc(1))
      then obtain ex2 where "format_notification e2 subreddit p = Inl ex2"
        by (cases "format_notification e2 subreddit p") auto
      then show ?thesis
        using new same Cons.prems(4) by simp
    next
      case (Inr tb)
      obtain title body where tb: "tb = (title, body)" by (cases tb)
      obtain s1 r1 where sp: "send_pushbullet_notification e title body s = (s1, r1)"
        by (cases "send_pushbullet_notification e title body s")
      show ?thesis
      proof (cases r1)
        case (Inl ex1)
        then have same: "s' = s"
          and no_key: "environ e ''PUSHBULLET_API_KEY'' = None
                     \<or> environ e ''PUSHBULLET_API_KEY'' = Some []"
          using Cons.prems new Inr tb sp send_pushbullet_notification_Inl [of e title body s s1 ex1]
          by auto
        have fresh: "post_id p \<notin> notified_ids s2"
          using new same Cons.prems(4) by simp
        show ?thesis
        proof (cases "format_notification e2 subreddit p")
          case (Inl ex2)
          then show ?thesis using fresh by simp
        next
          case (Inr tb2)
          obtain title2 body2 where tb2: "tb2 = (title2, body2)" by (cases tb2)
          have "send_pushbullet_notification e2 title2 body2 s2 = (s2, Inl ValueError)"
            using no_key Cons.prems(2) by (simp add: send_pushbullet_notification_no_key)
          then show ?thesis using fresh Inr tb2 by simp
        qed
      next
        case r1: (Inr u)
        let ?s2 = "s1\<lparr>notified_ids := insert (post_id p) (notified_ids s1)\<rparr>"
        have rest: "notify_loop e subreddit ps ?s2 (c + 1) = (s', Inl ex)"
          using Cons.prems new Inr tb sp r1 by simp
        have "post_id p \<in> notified_ids s'"
          using notify_loop_mono [of ?s2 e subreddit ps "c + 1"] rest by auto
        then have "post_id p \<in> notified_ids s2" using Cons.prems by simp
        then show ?thesis
          using Cons.IH [OF rest] Cons.prems by simp
      qed
    qed
  qed
qed

lemma download_reddit_search_frame:
  "download_reddit_search e subreddit search_query s = (s0, r) \<Longrightarrow>
     notified_ids s0 = notified_ids s \<and> pushes s0 = pushes s
     \<and> notified_ids_file s0 = notified_ids_file s"
  by (auto simp: download_reddit_search_def Let_def split: http.splits)

lemma fetch_and_parse_reddit_search_frame:
  "fetch_and_parse_reddit_search e subreddit search_query s = (s0, r) \<Longrightarrow>
     notified_ids s0 = notified_ids s \<and> pushes s0 = pushes s
     \<and> notified_ids_file s0 = notified_ids_file s"
  using download_reddit_search_frame [of e subreddit search_query s]
  by (cases "download_reddit_search e subreddit search_query s")
     (auto simp: fetch_and_parse_reddit_search_def split: option.splits)

section \<open>Evaluation in the example worlds\<close>

lemma fetch_world:
  "site (''https://old.reddit.com/r/'' @ subreddit @ ''/search'') = Response page \<Longrightarrow>
   fetch_and_parse_reddit_search (world site key answer) subreddit q s
     = (s, parse_reddit_search_results (world site key answer) page)"
  by (simp add: fetch_and_parse_reddit_search_def download_reddit_search_def search_url_def
      world_def Let_def)

lemma fetch_world_two:
  "fetch_and_parse_reddit_search (world site_two key answer) subreddit q s
     = (s, Inr [post_abc, post_def])"
  by (simp add: fetch_world [where page = "page_of [result_abc, result_def]"] site_two_def
      parse_page_abc_def)

lemma world_environ:
  "environ (world site key answer) ''PUSHBULLET_API_KEY'' = key"
  by (simp add: world_def)

lemma world_formatters:
  "naturaltime (world site key answer) d = Inr ''a minute ago''"
  "isoformat_new_york (world site key answer) t = Inr ''2023-12-31T19:00:00-05:00''"
  by (simp_all add: world_def)

lemma format_post_def:
  "format_notification (world site key answer) ''a'' post_def = Inr note_def"
  by (simp add: format_notification_def world_def post_def_def note_def_def)

lemma send_world_set:
  "send_pushbullet_notification (world site (Some ''k'') (Response ())) title body s
     = (s\<lparr>pushes := pushes s @ [(title, body)],
          stdout := stdout s @ [Notification_sent]\<rparr>, Inr ())"
  by (simp add: send_pushbullet_notification_def world_def)

lemma send_world_failing:
  "send_pushbullet_notification (world site (Some ''k'') (RequestException err)) title body s
     = (s\<lparr>pushes := pushes s @ [(title, body)],
          stdout := stdout s @ [Failed_to_send err]\<rparr>, Inr ())"
  by (simp add: send_pushbullet_notification_def world_def)

lemma post_ids [simp]:
  "post_id post_abc = ''abc''" "post_id post_def = ''def''" "post_id post_bare = ''''"
  by (simp_all add: post_abc_def post_def_def post_bare_def)

lemma run_world_two:
  "send_reddit_notifications world_two ''a'' ''q'' (start {''abc''})
     = (\<lparr>notified_ids = {''abc'', ''def''}, pushes = [note_def],
         stdout = [Notification_sent, Checked 2 1], notified_ids_file = Absent\<rparr>, Inr ())"
  by (auto simp add: send_reddit_notifications_def world_two_def fetch_world_two format_post_def
      send_world_set start_def note_def_def)

lemma run_world_two_again:
  "send_reddit_notifications world_two ''a'' ''q''
       \<lparr>notified_ids = {''abc'', ''def''}, pushes = [note_def],
         stdout = [Notification_sent, Checked 2 1], notified_ids_file = Absent\<rparr>
     = (\<lparr>notified_ids = {''abc'', ''def''}, pushes = [note_def],
         stdout = [Notification_sent, Checked 2 1, Checked 2 0], notified_ids_file = Absent\<rparr>,
        Inr ())"
  by (simp add: send_reddit_notifications_def world_two_def fetch_world_two)

lemma run_world_failing:
  "send_reddit_notifications world_failing ''a'' ''q'' (start {''abc''})
     = (\<lparr>notified_ids = {''abc'', ''def''}, pushes = [note_def],
         stdout = [Failed_to_send ''503 Server Error'', Checked 2 1],
         notified_ids_file = Absent\<rparr>, Inr ())"
  by (auto simp add: send_reddit_notifications_def world_failing_def fetch_world_two format_post_def
      send_world_failing start_def note_def_def)

lemma run_world_no_key:
  "send_reddit_notifications world_no_key ''a'' ''q'' (start {''abc''})
     = (start {''abc''}, Inl ValueError)"
  by (simp add: send_reddit_notifications_def world_no_key_def fetch_world_two format_post_def
      send_pushbullet_notification_def start_def note_def_def, simp add: world_def)

lemma run_world_bare:
  "send_reddit_notifications world_bare_in_a ''a'' ''q'' s = (s, Inl TypeError)" if "[] \<notin> notified_ids s"
  using that
  by (simp add: send_reddit_notifications_def world_bare_in_a_def
      fetch_world [where page = "page_of [result_bare]"] site_bare_in_a_def parse_page_bare
      format_notification_def post_bare_def)

lemma run_world_down:
  "send_reddit_notifications world_down ''a'' ''q'' s
     = (s\<lparr>stdout := stdout s @ [Fetch_error ''timed out'', Checked 0 0]\<rparr>, Inr ())"
  by (simp add: send_reddit_notifications_def world_down_def fetch_and_parse_reddit_search_def
      download_reddit_search_def world_def)

section \<open>One call of send\_reddit\_notifications\<close>

lemma start_simps:
  "notified_ids (start ids) = ids" "pushes (start ids) = []" "stdout (start ids) = []"
  "notified_ids_file (start ids) = Absent"
  by (simp_all add: start_def)

lemma fetch_and_parse_reddit_search_Inr:
  "\<exists>s0 posts. fetch_and_parse_reddit_search e subreddit search_query s = (s0, Inr posts)"
proof (cases "download_reddit_search e subreddit search_query s")
  case (Pair s0 soup)
  show ?thesis
  proof (cases soup)
    case None
    then show ?thesis using Pair by (simp add: fetch_and_parse_reddit_search_def)
  next
    case (Some page)
    obtain ps where "parse_reddit_search_results e page = Inr ps"
      using parse_loop_Inr [of e "find_all page ''div'' (Some ''search-result-link'')" "[]"]
      by (auto simp: parse_reddit_search_results_def)
    then show ?thesis using Pair Some by (simp add: fetch_and_parse_reddit_search_def)
  qed
qed



text \<open>
  C7. When the request of the search fails, the call prints the error of the fetch and
  the line with total 0 and new 0, returns without an exception, and changes nothing
  else: the set of notified ids, the posted notes and the file are as before.
\<close>

theorem fetch_failure_changes_nothing:
  assumes "session_get e (search_url e subreddit) (search_params search_query) = RequestException err"
  shows "send_reddit_notifications e subreddit search_query s
           = (s\<lparr>stdout := stdout s @ [Fetch_error err, Checked 0 0]\<rparr>, Inr ())
       \<and> notified_ids (fst (send_reddit_notifications e subreddit search_query s)) = notified_ids s
       \<and> pushes (fst (send_reddit_notifications e subreddit search_query s)) = pushes s"
  using assms
  by (simp add: send_reddit_notifications_def fetch_and_parse_reddit_search_def
      download_reddit_search_def)

theorem fetch_failure_changes_nothing_witness:
  "session_get world_down (search_url world_down ''a'') (search_params ''q'')
     = RequestException ''timed out''
   \<and> send_reddit_notifications world_down ''a'' ''q'' (start {''abc''})
       = ((start {''abc''})\<lparr>stdout := [Fetch_error ''timed out'', Checked 0 0]\<rparr>, Inr ())
   \<and> notified_ids (fst (send_reddit_notifications world_down ''a'' ''q'' (start {''abc''}))) = {''abc''}"
proof -
  have down: "session_get world_down (search_url world_down ''a'') (search_params ''q'')
     = RequestException ''timed out''"
    by (simp add: world_down_def world_def)
  show ?thesis
    using fetch_failure_changes_nothing [OF down, of "start {''abc''}"] down
    by (simp add: start_def)
qed

section \<open>Two calls, and the two-post scenario\<close>

lemma send_pushbullet_notification_key:
  "environ e ''PUSHBULLET_API_KEY'' = Some k \<Longrightarrow> k \<noteq> [] \<Longrightarrow>
     \<exists>s1. send_pushbullet_notification e title body s = (s1, Inr ())"
  by (cases "requests_post e ''https://api.pushbullet.com/v2/pushes''
               [(''type'', ''note''), (''title'', title), (''body'', body)]
               [(''Access-Token'', k), (''Content-Type'', ''application/json'')]")
     (simp_all add: send_pushbullet_notification_def Let_def)

text \<open>
  C3. A second call of \<open>send_reddit_notifications\<close>, made in the state the first call
  left, that fetches the same posts and sees the same key, posts no note and adds no id;
  and when the first call returned, the second returns too and prints zero new posts.
  Where the first call raised, the second is taken to fail on the formatting of every
  post the first call could not format (the same timestamps overflow again).
\<close>

theorem second_call_notifies_nothing:
  assumes first: "send_reddit_notifications e subreddit search_query s = (s1, r1)"
      and same_posts: "snd (fetch_and_parse_reddit_search e2 subreddit search_query s1)
                         = snd (fetch_and_parse_reddit_search e subreddit search_query s)"
      and same_key: "environ e2 ''PUSHBULLET_API_KEY'' = environ e ''PUSHBULLET_API_KEY''"
      and same_format: "isl r1 \<longrightarrow>
                          (\<forall>p. isl (format_notification e subreddit p) \<longrightarrow>
                               isl (format_notification e2 subreddit p))"
      and second: "send_reddit_notifications e2 subreddit search_query s1 = (s2, r2)"
  shows "pushes s2 = pushes s1 \<and> notified_ids s2 = notified_ids s1
       \<and> (r1 = Inr () \<longrightarrow>
            r2 = Inr ()
          \<and> (\<exists>posts. snd (fetch_and_parse_reddit_search e subreddit search_query s) = Inr posts
                \<and> stdout s2 = stdout (fst (fetch_and_parse_reddit_search e2 subreddit search_query s1))
                                @ [Checked (length posts) 0]))"
proof -
  obtain s0 posts where f: "fetch_and_parse_reddit_search e subreddit search_query s = (s0, Inr posts)"
    using fetch_and_parse_reddit_search_Inr by blast
  obtain s0' r0' where f2: "fetch_and_parse_reddit_search e2 subreddit search_query s1 = (s0', r0')"
    by (cases "fetch_and_parse_reddit_search e2 subreddit search_query s1")
  have r0': "r0' = Inr posts" using same_posts f f2 by simp
  have s0': "notified_ids s0' = notified_ids s1" "pushes s0' = pushes s1"
    using fetch_and_parse_reddit_search_frame [OF f2] by auto
  obtain sl rl where l: "notify_loop e subreddit posts s0 0 = (sl, rl)"
    by (cases "notify_loop e subreddit posts s0 0")
  have sl: "notified_ids s1 = notified_ids sl"
    using first f l by (auto simp: send_reddit_notifications_def split: sum.splits)
  show ?thesis
  proof (cases rl)
    case (Inl ex)
    then have r1: "r1 = Inl ex" "s1 = sl"
      using first f l by (auto simp: send_reddit_notifications_def)
    have fails: "\<forall>p. isl (format_notification e subreddit p) \<longrightarrow>
                     isl (format_notification e2 subreddit p)"
      using same_format r1(1) by simp
    have again: "\<exists>ex2. notify_loop e2 subreddit posts s0' 0 = (s0', Inl ex2)"
    proof (rule notify_loop_raises_again)
      show "notify_loop e subreddit posts s0 0 = (sl, Inl ex)" using l Inl by simp
      show "environ e2 ''PUSHBULLET_API_KEY'' = environ e ''PUSHBULLET_API_KEY''" by (rule same_key)
      show "\<forall>p. isl (format_notification e subreddit p) \<longrightarrow>
                  isl (format_notification e2 subreddit p)" by (rule fails)
      show "notified_ids s0' = notified_ids sl" using s0' sl by simp
    qed
    then obtain ex2 where "notify_loop e2 subreddit posts s0' 0 = (s0', Inl ex2)" by blast
    then show ?thesis
      using second f2 r0' s0' r1 by (auto simp: send_reddit_notifications_def)
  next
    case (Inr c)
    then have r1: "r1 = Inr ()"
      using first f l by (auto simp: send_reddit_notifications_def)
    have "post_id ` set posts \<subseteq> notified_ids sl"
      using notify_loop_news [OF l] Inr by blast
    then have "notify_loop e2 subreddit posts s0' 0 = (s0', Inr 0)"
      using notify_loop_skip [of posts s0' e2 subreddit 0] s0' sl by simp
    then have "s2 = s0'\<lparr>stdout := stdout s0' @ [Checked (length posts) 0]\<rparr>" "r2 = Inr ()"
      using second f2 r0' by (auto simp: send_reddit_notifications_def)
    then show ?thesis
      using s0' f f2 by auto
  qed
qed

theorem second_call_notifies_nothing_witness:
  "send_reddit_notifications world_two ''a'' ''q'' (start {''abc''})
     = (\<lparr>notified_ids = {''abc'', ''def''}, pushes = [note_def],
         stdout = [Notification_sent, Checked 2 1], notified_ids_file = Absent\<rparr>, Inr ())
   \<and> send_reddit_notifications world_two ''a'' ''q''
       \<lparr>notified_ids = {''abc'', ''def''}, pushes = [note_def],
         stdout = [Notification_sent, Checked 2 1], notified_ids_file = Absent\<rparr>
     = (\<lparr>notified_ids = {''abc'', ''def''}, pushes = [note_def],
         stdout = [Notification_sent, Checked 2 1, Checked 2 0], notified_ids_file = Absent\<rparr>,
        Inr ())
   \<and> pushes \<lparr>notified_ids = {''abc'', ''def''}, pushes = [note_def],
         stdout = [Notification_sent, Checked 2 1, Checked 2 0], notified_ids_file = Absent\<rparr>
       = pushes \<lparr>notified_ids = {''abc'', ''def''}, pushes = [note_def],
         stdout = [Notification_sent, Checked 2 1], notified_ids_file = Absent\<rparr>
   \<and> send_reddit_notifications world_bare_in_a ''a'' ''q'' (start {}) = (start {}, Inl TypeError)
   \<and> isl (Inl TypeError :: exn + unit)
   \<and> isl (format_notification world_bare_in_a ''a'' post_bare)
   \<and> pushes (start {}) = []"
proof -
  let ?s1 = "\<lparr>notified_ids = {''abc'', ''def''}, pushes = [note_def],
         stdout = [Notification_sent, Checked 2 1], notified_ids_file = Absent\<rparr>"
  let ?s2 = "\<lparr>notified_ids = {''abc'', ''def''}, pushes = [note_def],
         stdout = [Notification_sent, Checked 2 1, Checked 2 0], notified_ids_file = Absent\<rparr>"
  have same: "snd (fetch_and_parse_reddit_search world_two ''a'' ''q'' ?s1)
                = snd (fetch_and_parse_reddit_search world_two ''a'' ''q'' (start {''abc''}))"
    unfolding world_two_def fetch_world_two by simp
  have returned: "isl (Inr () :: exn + unit) \<longrightarrow>
      (\<forall>p. isl (format_notification world_two ''a'' p) \<longrightarrow> isl (format_notification world_two ''a'' p))"
    by simp
  have "pushes ?s2 = pushes ?s1"
    using second_call_notifies_nothing [OF run_world_two same refl returned run_world_two_again]
    by blast
  moreover have raised: "send_reddit_notifications world_bare_in_a ''a'' ''q'' (start {})
      = (start {}, Inl TypeError)"
    by (simp add: run_world_bare start_simps)
  moreover have "pushes (start {}) = pushes (start {}) \<and> notified_ids (start {}) = notified_ids (start {})
      \<and> ((Inl TypeError :: exn + unit) = Inr () \<longrightarrow> True)"
    using second_call_notifies_nothing [OF raised refl refl _ raised] by simp
  moreover have "isl (format_notification world_bare_in_a ''a'' post_bare)"
    by (simp add: format_notification_def post_bare_def)
  ultimately show ?thesis
    using run_world_two run_world_two_again by (simp add: start_simps)
qed




section \<open>Failures of the delivery and of the formatting\<close>

lemma notify_loop_append:
  "notify_loop e subreddit (xs @ ys) s c =
     (case notify_loop e subreddit xs s c of
        (s1, Inl ex) \<Rightarrow> (s1, Inl ex)
      | (s1, Inr c1) \<Rightarrow> notify_loop e subreddit ys s1 c1)"
  by (induction xs arbitrary: s c) (auto split: sum.splits prod.splits)

lemma send_pushbullet_notification_grows:
  "send_pushbullet_notification e title body s = (s', r) \<Longrightarrow>
     set (stdout s) \<subseteq> set (stdout s') \<and> set (pushes s) \<subseteq> set (pushes s')"
  by (auto simp: send_pushbullet_notification_def Let_def split: option.splits if_splits http.splits)

lemma notify_loop_grows:
  "notify_loop e subreddit ps s c = (s', r) \<Longrightarrow>
     notified_ids s \<subseteq> notified_ids s' \<and> set (stdout s) \<subseteq> set (stdout s')
     \<and> set (pushes s) \<subseteq> set (pushes s')"
proof (induction ps arbitrary: s c)
  case Nil
  then show ?case by auto
next
  case (Cons p ps)
  show ?case
  proof (cases "post_id p \<in> notified_ids s")
    case True
    then show ?thesis using Cons.IH [of s c] Cons.prems by simp
  next
    case new: False
    show ?thesis
    proof (cases "format_notification e subreddit p")
      case (Inl ex)
      then show ?thesis using Cons.prems new by auto
    next
      case (Inr tb)
      obtain title body where tb: "tb = (title, body)" by (cases tb)
      obtain s1 r1 where sp: "send_pushbullet_notification e title body s = (s1, r1)"
        by (cases "send_pushbullet_notification e title body s")
      note g = send_pushbullet_notification_grows [OF sp]
      show ?thesis
      proof (cases r1)
        case (Inl ex)
        then show ?thesis
          using Cons.prems new Inr tb sp send_pushbullet_notification_Inl [of e title body s s1 ex]
          by auto
      next
        case r1: (Inr u)
        let ?s2 = "s1\<lparr>notified_ids := insert (post_id p) (notified_ids s1)\<rparr>"
        have rest: "notify_loop e subreddit ps ?s2 (c + 1) = (s', r)"
          using Cons.prems new Inr tb sp r1 by simp
        have "notified_ids s1 = notified_ids s"
          using send_pushbullet_notification_Inr [of e title body s s1 u] sp r1 by simp
        then show ?thesis
          using Cons.IH [OF rest] g by auto
      qed
    qed
  qed
qed

text \<open>
  C5. A new post whose delivery fails is still recorded. Let the posts before \<open>p\<close> be
  processed without an exception, let \<open>p\<close> be new at that point and have a note, let the
  key be set, and let the request to Pushbullet for that note fail with a
  \<open>RequestException\<close>. Then the request was made, the failure is printed, and the id of
  \<open>p\<close> is in the set of notified ids when the call ends, whatever happens to the posts
  after \<open>p\<close>.
\<close>

theorem failed_delivery_still_marks_notified:
  assumes fetch: "fetch_and_parse_reddit_search e subreddit search_query s
                    = (s0, Inr (before @ p # after))"
      and before: "notify_loop e subreddit before s0 0 = (s1, Inr c1)"
      and new: "post_id p \<notin> notified_ids s1"
      and fmt: "format_notification e subreddit p = Inr (title, body)"
      and key: "environ e ''PUSHBULLET_API_KEY'' = Some api_key" "api_key \<noteq> []"
      and fails: "requests_post e ''https://api.pushbullet.com/v2/pushes''
                    [(''type'', ''note''), (''title'', title), (''body'', body)]
                    [(''Access-Token'', api_key), (''Content-Type'', ''application/json'')]
                  = RequestException err"
  shows "post_id p \<in> notified_ids (fst (send_reddit_notifications e subreddit search_query s))
       \<and> Failed_to_send err \<in> set (stdout (fst (send_reddit_notifications e subreddit search_query s)))
       \<and> (title, body) \<in> set (pushes (fst (send_reddit_notifications e subreddit search_query s)))"
proof -
  let ?s2 = "s1\<lparr>pushes := pushes s1 @ [(title, body)],
                 stdout := stdout s1 @ [Failed_to_send err],
                 notified_ids := insert (post_id p) (notified_ids s1)\<rparr>"
  have sp: "send_pushbullet_notification e title body s1
              = (s1\<lparr>pushes := pushes s1 @ [(title, body)],
                     stdout := stdout s1 @ [Failed_to_send err]\<rparr>, Inr ())"
    using key fails by (simp add: send_pushbullet_notification_def)
  have step: "notify_loop e subreddit (p # after) s1 c1 = notify_loop e subreddit after ?s2 (c1 + 1)"
    using new fmt sp by simp
  obtain s3 r3 where rest: "notify_loop e subreddit after ?s2 (c1 + 1) = (s3, r3)"
    by (cases "notify_loop e subreddit after ?s2 (c1 + 1)")
  have whole: "notify_loop e subreddit (before @ p # after) s0 0 = (s3, r3)"
    using before step rest by (simp add: notify_loop_append)
  have in3: "post_id p \<in> notified_ids s3" "Failed_to_send err \<in> set (stdout s3)"
    "(title, body) \<in> set (pushes s3)"
    using notify_loop_grows [OF rest] by auto
  have "notified_ids (fst (send_reddit_notifications e subreddit search_query s)) = notified_ids s3"
    "set (stdout s3) \<subseteq> set (stdout (fst (send_reddit_notifications e subreddit search_query s)))"
    "pushes (fst (send_reddit_notifications e subreddit search_query s)) = pushes s3"
    using fetch whole by (auto simp: send_reddit_notifications_def split: sum.splits)
  then show ?thesis
    using in3 by auto
qed

theorem failed_delivery_still_marks_notified_witness:
  "fetch_and_parse_reddit_search world_failing ''a'' ''q'' (start {''abc''})
     = (start {''abc''}, Inr ([post_abc] @ post_def # []))
   \<and> notify_loop world_failing ''a'' [post_abc] (start {''abc''}) 0 = (start {''abc''}, Inr 0)
   \<and> post_id post_def \<notin> notified_ids (start {''abc''})
   \<and> format_notification world_failing ''a'' post_def = Inr (fst note_def, snd note_def)
   \<and> environ world_failing ''PUSHBULLET_API_KEY'' = Some ''k''
   \<and> requests_post world_failing ''https://api.pushbullet.com/v2/pushes''
        [(''type'', ''note''), (''title'', fst note_def), (''body'', snd note_def)]
        [(''Access-Token'', ''k''), (''Content-Type'', ''application/json'')]
      = RequestException ''503 Server Error''
   \<and> post_id post_def \<in> notified_ids (fst (send_reddit_notifications world_failing ''a'' ''q'' (start {''abc''})))
   \<and> Failed_to_send ''503 Server Error''
        \<in> set (stdout (fst (send_reddit_notifications world_failing ''a'' ''q'' (start {''abc''}))))"
proof -
  have f: "fetch_and_parse_reddit_search world_failing ''a'' ''q'' (start {''abc''})
     = (start {''abc''}, Inr ([post_abc] @ post_def # []))"
    unfolding world_failing_def fetch_world_two by simp
  have b: "notify_loop world_failing ''a'' [post_abc] (start {''abc''}) 0 = (start {''abc''}, Inr 0)"
    by (simp add: start_simps)
  have n: "post_id post_def \<notin> notified_ids (start {''abc''})"
    by (simp add: start_simps)
  have m: "format_notification world_failing ''a'' post_def = Inr (fst note_def, snd note_def)"
    unfolding world_failing_def format_post_def by simp
  have k: "environ world_failing ''PUSHBULLET_API_KEY'' = Some ''k''"
    by (simp add: world_failing_def world_def)
  have r: "requests_post world_failing ''https://api.pushbullet.com/v2/pushes''
        [(''type'', ''note''), (''title'', fst note_def), (''body'', snd note_def)]
        [(''Access-Token'', ''k''), (''Content-Type'', ''application/json'')]
      = RequestException ''503 Server Error''"
    by (simp add: world_failing_def world_def)
  show ?thesis
    using failed_delivery_still_marks_notified [OF f b n m k _ r] f b n m k r by simp
qed

text \<open>
  C1 fails on the code. The bare result node gives a post without a timestamp; for it
  the formatting raises \<open>TypeError\<close>, and so does the call, which posts no note, adds
  no id and prints no count.
\<close>

theorem null_timestamp_raises:
  "parse_reddit_search_results world_bare_in_a (page_of [result_bare]) = Inr [post_bare]
   \<and> post_time post_bare = None
   \<and> format_notification world_bare_in_a ''a'' post_bare = Inl TypeError
   \<and> send_reddit_notifications world_bare_in_a ''a'' ''q'' (start {})
       = (start {}, Inl TypeError)"
  by (simp add: world_bare_in_a_def parse_page_bare format_notification_def post_bare_def
      run_world_bare [unfolded world_bare_in_a_def post_bare_def] start_simps)

section \<open>The file of notified ids and the passes\<close>

text \<open>
  C8. Saving and loading gives the set back: when \<open>list(notified_ids)\<close> lists exactly
  the elements of the set, in whatever order, then the file written by the save, read
  by the load, is that set again.
\<close>

theorem save_then_load:
  assumes "set (list_of e (notified_ids s)) = notified_ids s"
  shows "load_notified_ids (notified_ids_file (save_notified_ids e s)) = Inr (notified_ids s)"
  using assms by (simp add: save_notified_ids_def)

theorem save_then_load_witness:
  "set (list_of world_two (notified_ids (start {''def'', ''abc''})))
     = notified_ids (start {''def'', ''abc''})
   \<and> notified_ids_file (save_notified_ids world_two (start {''def'', ''abc''}))
     = Json_strings [''abc'', ''def'']
   \<and> load_notified_ids (notified_ids_file (save_notified_ids world_two (start {''def'', ''abc''})))
     = Inr {''def'', ''abc''}"
proof -
  have l: "set (list_of world_two (notified_ids (start {''def'', ''abc''})))
     = notified_ids (start {''def'', ''abc''})"
    by (auto simp: world_two_def world_def start_simps)
  have f: "notified_ids_file (save_notified_ids world_two (start {''def'', ''abc''}))
     = Json_strings [''abc'', ''def'']"
    by (simp add: save_notified_ids_def world_two_def world_def start_simps)
  show ?thesis
    using save_then_load [OF l] l f by (simp add: start_simps)
qed

lemma send_reddit_notifications_file:
  "send_reddit_notifications e subreddit search_query s = (s', r) \<Longrightarrow>
     notified_ids_file s' = notified_ids_file s"
proof -
  assume a: "send_reddit_notifications e subreddit search_query s = (s', r)"
  obtain s0 posts where f: "fetch_and_parse_reddit_search e subreddit search_query s = (s0, Inr posts)"
    using fetch_and_parse_reddit_search_Inr by blast
  obtain s1 r1 where l: "notify_loop e subreddit posts s0 0 = (s1, r1)"
    by (cases "notify_loop e subreddit posts s0 0")
  have "notified_ids_file s1 = notified_ids_file s0"
    using notify_loop_news [OF l] by blast
  moreover have "notified_ids_file s0 = notified_ids_file s"
    using fetch_and_parse_reddit_search_frame [OF f] by simp
  moreover have "notified_ids_file s' = notified_ids_file s1"
    using a f l by (auto simp: send_reddit_notifications_def split: sum.splits)
  ultimately show ?thesis by simp
qed

lemma query_loop_file:
  "query_loop e cfg s = (s', r) \<Longrightarrow> notified_ids_file s' = notified_ids_file s"
proof (induction cfg arbitrary: s)
  case Nil
  then show ?case by simp
next
  case (Cons c cfg)
  obtain subreddit search_query where c: "c = (subreddit, search_query)" by (cases c)
  let ?s = "s\<lparr>stdout := stdout s @ [Searching_in subreddit search_query]\<rparr>"
  obtain s1 r1 where q: "send_reddit_notifications e subreddit search_query ?s = (s1, r1)"
    by (cases "send_reddit_notifications e subreddit search_query ?s")
  have s1: "notified_ids_file s1 = notified_ids_file s"
    using send_reddit_notifications_file [OF q] by simp
  show ?case
  proof (cases r1)
    case (Inl ex)
    then show ?thesis using Cons.prems c q s1 by auto
  next
    case (Inr u)
    then have "query_loop e cfg s1 = (s', r)" using Cons.prems c q by simp
    then show ?thesis using Cons.IH s1 by simp
  qed
qed

lemma query_loop_append:
  "query_loop e (xs @ ys) s =
     (case query_loop e xs s of
        (s1, Inl ex) \<Rightarrow> (s1, Inl ex)
      | (s1, Inr u) \<Rightarrow> query_loop e ys s1)"
  by (induction xs arbitrary: s) (auto split: sum.splits prod.splits)

text \<open>
  C2 as the code has it. When the pairs before a pair have been processed and the call
  for that pair raises, the pass ends there: whatever pairs come after it, the state is
  the one the failing call left, with the exception and the sleep printed, and the file
  of notified ids is as it was before the pass.
\<close>

theorem exception_ends_the_pass:
  assumes before: "query_loop e before (s\<lparr>stdout := stdout s @ [Searching_at]\<rparr>) = (s1, Inr ())"
      and raises: "send_reddit_notifications e subreddit search_query
                     (s1\<lparr>stdout := stdout s1 @ [Searching_in subreddit search_query]\<rparr>)
                   = (s2, Inl ex)"
  shows "run_pass e (before @ (subreddit, search_query) # after) s
           = s2\<lparr>stdout := stdout s2 @ [An_error_occurred ex, Sleeping]\<rparr>
       \<and> notified_ids_file (run_pass e (before @ (subreddit, search_query) # after) s)
           = notified_ids_file s"
proof -
  have q: "query_loop e (before @ (subreddit, search_query) # after)
             (s\<lparr>stdout := stdout s @ [Searching_at]\<rparr>) = (s2, Inl ex)"
    using before raises by (simp add: query_loop_append)
  have "notified_ids_file s2 = notified_ids_file s"
    using query_loop_file [OF q] by simp
  then show ?thesis
    using q by (simp add: run_pass_def)
qed

lemma run_pass_bare_in_a:
  "run_pass world_bare_in_a ((''a'', ''q'') # after) (start {})
     = \<lparr>notified_ids = {}, pushes = [],
        stdout = [Searching_at, Searching_in ''a'' ''q'', An_error_occurred TypeError, Sleeping],
        notified_ids_file = Absent\<rparr>"
  by (simp add: run_pass_def run_world_bare start_def)

theorem exception_ends_the_pass_witness:
  "query_loop world_bare_in_a [] ((start {})\<lparr>stdout := stdout (start {}) @ [Searching_at]\<rparr>)
     = ((start {})\<lparr>stdout := [Searching_at]\<rparr>, Inr ())
   \<and> send_reddit_notifications world_bare_in_a ''a'' ''q''
        ((start {})\<lparr>stdout := [Searching_at, Searching_in ''a'' ''q'']\<rparr>)
     = ((start {})\<lparr>stdout := [Searching_at, Searching_in ''a'' ''q'']\<rparr>, Inl TypeError)
   \<and> run_pass world_bare_in_a ([] @ (''a'', ''q'') # [(''b'', ''q'')]) (start {})
     = (start {})\<lparr>stdout := [Searching_at, Searching_in ''a'' ''q'',
                                An_error_occurred TypeError, Sleeping]\<rparr>
   \<and> notified_ids_file (run_pass world_bare_in_a ([] @ (''a'', ''q'') # [(''b'', ''q'')]) (start {}))
     = Absent"
proof -
  have b: "query_loop world_bare_in_a [] ((start {})\<lparr>stdout := stdout (start {}) @ [Searching_at]\<rparr>)
     = ((start {})\<lparr>stdout := [Searching_at]\<rparr>, Inr ())"
    by (simp add: start_simps)
  have r: "send_reddit_notifications world_bare_in_a ''a'' ''q''
        ((start {})\<lparr>stdout := [Searching_at]\<rparr>
           \<lparr>stdout := stdout ((start {})\<lparr>stdout := [Searching_at]\<rparr>) @ [Searching_in ''a'' ''q'']\<rparr>)
     = ((start {})\<lparr>stdout := [Searching_at, Searching_in ''a'' ''q'']\<rparr>, Inl TypeError)"
    by (simp add: run_world_bare start_simps)
  show ?thesis
    using exception_ends_the_pass [OF b r, of "[(''b'', ''q'')]"] b r
    by (simp add: start_simps)
qed

text \<open>
  C2 fails on the code. In a pass over the pairs \<open>(a, q)\<close> and \<open>(b, q)\<close> where the search
  in \<open>r/a\<close> finds a post without timestamp, the call for \<open>(a, q)\<close> raises and the pair
  \<open>(b, q)\<close> is not processed: its search is never announced and nothing is posted,
  although the call for \<open>(b, q)\<close> alone returns and records two new posts.
\<close>

theorem later_pair_is_skipped:
  "run_pass world_bare_in_a [(''a'', ''q''), (''b'', ''q'')] (start {})
     = \<lparr>notified_ids = {}, pushes = [],
        stdout = [Searching_at, Searching_in ''a'' ''q'', An_error_occurred TypeError, Sleeping],
        notified_ids_file = Absent\<rparr>
   \<and> snd (send_reddit_notifications world_bare_in_a ''b'' ''q'' (start {})) = Inr ()
   \<and> notified_ids (fst (send_reddit_notifications world_bare_in_a ''b'' ''q'' (start {})))
       = {''abc'', ''def''}"
proof -
  have f: "fetch_and_parse_reddit_search world_bare_in_a ''b'' ''q'' (start {})
      = (start {}, Inr [post_abc, post_def])"
    by (simp add: world_bare_in_a_def fetch_world [where page = "page_of [result_abc, result_def]"]
        site_bare_in_a_def parse_page_abc_def)
  have "snd (send_reddit_notifications world_bare_in_a ''b'' ''q'' (start {})) = Inr ()"
    "notified_ids (fst (send_reddit_notifications world_bare_in_a ''b'' ''q'' (start {})))
       = {''abc'', ''def''}"
    unfolding send_reddit_notifications_def f
    by (auto simp add: world_bare_in_a_def format_notification_def world_formatters
        send_world_set start_def post_abc_def post_def_def Let_def)
  then show ?thesis
    by (simp add: run_pass_bare_in_a)
qed

section \<open>A missing key\<close>

lemma notify_loop_no_key:
  "environ e ''PUSHBULLET_API_KEY'' = None \<Longrightarrow>
   notify_loop e subreddit ps s c = (s', r) \<Longrightarrow>
     pushes s' = pushes s \<and> notified_ids s' = notified_ids s"
proof (induction ps arbitrary: s c)
  case Nil
  then show ?case by auto
next
  case (Cons p ps)
  show ?case
  proof (cases "post_id p \<in> notified_ids s")
    case True
    then show ?thesis using Cons.IH [of s c] Cons.prems by simp
  next
    case new: False
    show ?thesis
    proof (cases "format_notification e subreddit p")
      case (Inl ex)
      then show ?thesis using Cons.prems new by auto
    next
      case (Inr tb)
      obtain title body where tb: "tb = (title, body)" by (cases tb)
      have "send_pushbullet_notification e title body s = (s, Inl ValueError)"
        using Cons.prems(1) by (simp add: send_pushbullet_notification_no_key)
      then show ?thesis using Cons.prems new Inr tb by auto
    qed
  qed
qed

lemma send_reddit_notifications_no_key:
  assumes "environ e ''PUSHBULLET_API_KEY'' = None"
      and "send_reddit_notifications e subreddit search_query s = (s', r)"
  shows "pushes s' = pushes s \<and> notified_ids s' = notified_ids s"
proof -
  obtain s0 posts where f: "fetch_and_parse_reddit_search e subreddit search_query s = (s0, Inr posts)"
    using fetch_and_parse_reddit_search_Inr by blast
  obtain s1 r1 where l: "notify_loop e subreddit posts s0 0 = (s1, r1)"
    by (cases "notify_loop e subreddit posts s0 0")
  have "pushes s1 = pushes s0 \<and> notified_ids s1 = notified_ids s0"
    using notify_loop_no_key [OF assms(1) l] .
  moreover have "pushes s0 = pushes s \<and> notified_ids s0 = notified_ids s"
    using fetch_and_parse_reddit_search_frame [OF f] by simp
  moreover have "pushes s' = pushes s1 \<and> notified_ids s' = notified_ids s1"
    using assms(2) f l by (auto simp: send_reddit_notifications_def split: sum.splits)
  ultimately show ?thesis by simp
qed

lemma query_loop_no_key:
  "environ e ''PUSHBULLET_API_KEY'' = None \<Longrightarrow> query_loop e cfg s = (s', r) \<Longrightarrow>
     pushes s' = pushes s \<and> notified_ids s' = notified_ids s"
proof (induction cfg arbitrary: s)
  case Nil
  then show ?case by auto
next
  case (Cons c cfg)
  obtain subreddit search_query where c: "c = (subreddit, search_query)" by (cases c)
  let ?s = "s\<lparr>stdout := stdout s @ [Searching_in subreddit search_query]\<rparr>"
  obtain s1 r1 where q: "send_reddit_notifications e subreddit search_query ?s = (s1, r1)"
    by (cases "send_reddit_notifications e subreddit search_query ?s")
  have s1: "pushes s1 = pushes s \<and> notified_ids s1 = notified_ids s"
    using send_reddit_notifications_no_key [OF Cons.prems(1) q] by simp
  show ?case
  proof (cases r1)
    case (Inl ex)
    then show ?thesis using Cons.prems c q s1 by auto
  next
    case (Inr u)
    then have "query_loop e cfg s1 = (s', r)" using Cons.prems c q by simp
    then show ?thesis using Cons.IH [OF Cons.prems(1)] s1 by simp
  qed
qed

lemma run_pass_no_key:
  assumes "environ e ''PUSHBULLET_API_KEY'' = None"
  shows "pushes (run_pass e cfg s) = pushes s \<and> notified_ids (run_pass e cfg s) = notified_ids s"
proof -
  let ?s0 = "s\<lparr>stdout := stdout s @ [Searching_at]\<rparr>"
  obtain s1 r where q: "query_loop e cfg ?s0 = (s1, r)"
    by (cases "query_loop e cfg ?s0")
  have "pushes s1 = pushes s \<and> notified_ids s1 = notified_ids s"
    using query_loop_no_key [OF assms q] by simp
  then show ?thesis
    using q by (cases r) (simp_all add: run_pass_def save_notified_ids_def)
qed

lemma passes_no_key:
  "\<forall>i. environ (worlds i) ''PUSHBULLET_API_KEY'' = None \<Longrightarrow>
     pushes (passes n worlds cfg s) = pushes s \<and> notified_ids (passes n worlds cfg s) = notified_ids s"
proof (induction n arbitrary: worlds s)
  case 0
  then show ?case by simp
next
  case (Suc n)
  have "pushes (run_pass (worlds 0) cfg s) = pushes s
      \<and> notified_ids (run_pass (worlds 0) cfg s) = notified_ids s"
    using run_pass_no_key [of "worlds 0" cfg s] Suc.prems by simp
  moreover have "\<forall>i. environ (worlds (Suc i)) ''PUSHBULLET_API_KEY'' = None"
    using Suc.prems by simp
  ultimately show ?case
    using Suc.IH [of "\<lambda>i. worlds (Suc i)" "run_pass (worlds 0) cfg s"] by simp
qed

text \<open>
  C9 as the code has it. When the key is absent in every pass, and the configuration
  and the file of notified ids load, \<open>main\<close> does not end with an exception: it runs
  any number of passes; every attempt to send raises \<open>ValueError\<close> before a request is
  made, so no note is posted and the set of notified ids stays what was loaded.
\<close>

theorem missing_key_is_not_fatal:
  assumes absent: "\<forall>i. environ (worlds i) ''PUSHBULLET_API_KEY'' = None"
      and cfg: "search_config (worlds 0) = Inr cfg"
      and ids: "load_notified_ids (notified_ids_file s) = Inr ids"
  shows "(\<exists>s'. main n worlds s = Inr s' \<and> pushes s' = pushes s \<and> notified_ids s' = ids)
       \<and> send_pushbullet_notification (worlds i) title body st = (st, Inl ValueError)"
proof -
  let ?s' = "passes n worlds cfg (s\<lparr>notified_ids := ids\<rparr>)"
  have "main n worlds s = Inr ?s'"
    using cfg ids by (simp add: main_def)
  moreover have "pushes ?s' = pushes s \<and> notified_ids ?s' = ids"
    using passes_no_key [OF absent, of n cfg "s\<lparr>notified_ids := ids\<rparr>"] by simp
  moreover have "send_pushbullet_notification (worlds i) title body st = (st, Inl ValueError)"
    using absent by (simp add: send_pushbullet_notification_no_key)
  ultimately show ?thesis by blast
qed

lemma run_pass_no_key_start:
  "run_pass world_no_key [(''a'', ''q''), (''b'', ''q'')] ((start {})\<lparr>stdout := out\<rparr>)
     = (start {})\<lparr>stdout := out @ [Searching_at, Searching_in ''a'' ''q'',
                                    An_error_occurred ValueError, Sleeping]\<rparr>"
proof -
  have "send_reddit_notifications world_no_key ''a'' ''q'' s = (s, Inl ValueError)"
    if "notified_ids s = {}" for s
    using that
    by (simp add: send_reddit_notifications_def world_no_key_def fetch_world_two
        format_notification_def world_formatters post_abc_def Let_def
        send_pushbullet_notification_def world_environ)
  then show ?thesis
    by (simp add: run_pass_def start_def)
qed

theorem missing_key_is_not_fatal_witness:
  "(\<forall>i. environ world_no_key ''PUSHBULLET_API_KEY'' = None)
   \<and> search_config world_no_key = Inr [(''a'', ''q''), (''b'', ''q'')]
   \<and> load_notified_ids (notified_ids_file (start {''old''})) = Inr {}
   \<and> (\<exists>s'. main 2 (\<lambda>i. world_no_key) (start {''old''}) = Inr s' \<and> pushes s' = [] \<and> notified_ids s' = {})
   \<and> send_pushbullet_notification world_no_key ''title'' ''body'' (start {})
       = (start {}, Inl ValueError)"
proof -
  have a: "\<forall>i::nat. environ ((\<lambda>i. world_no_key) i) ''PUSHBULLET_API_KEY'' = None"
    by (simp add: world_no_key_def world_def)
  have c: "search_config ((\<lambda>i::nat. world_no_key) 0) = Inr [(''a'', ''q''), (''b'', ''q'')]"
    by (simp add: world_no_key_def world_def)
  have l: "load_notified_ids (notified_ids_file (start {''old''})) = Inr {}"
    by (simp add: start_simps)
  show ?thesis
    using missing_key_is_not_fatal [OF a c l, of 2 "''title''" "''body''" "start {}"] a c l
    by (simp add: start_simps)
qed

text \<open>
  C9 fails on the code. With no key, a configuration that loads and no file of notified
  ids, \<open>main\<close> starts its loop; in each of two passes the first new post makes the call
  raise \<open>ValueError\<close>, the handler prints it and the loop sleeps and goes on.
\<close>

theorem missing_key_is_caught:
  "environ world_no_key ''PUSHBULLET_API_KEY'' = None
   \<and> main 2 (\<lambda>i. world_no_key) (start {})
     = Inr \<lparr>notified_ids = {}, pushes = [],
            stdout = [Searching_at, Searching_in ''a'' ''q'', An_error_occurred ValueError, Sleeping,
                      Searching_at, Searching_in ''a'' ''q'', An_error_occurred ValueError, Sleeping],
            notified_ids_file = Absent\<rparr>"
proof -
  have k: "environ world_no_key ''PUSHBULLET_API_KEY'' = None"
    by (simp add: world_no_key_def world_def)
  have c: "search_config world_no_key = Inr [(''a'', ''q''), (''b'', ''q'')]"
    by (simp add: world_no_key_def world_def)
  have s: "(start {})\<lparr>notified_ids := {}\<rparr> = (start {})\<lparr>stdout := []\<rparr>"
    by (simp add: start_def)
  have two: "passes 2 (\<lambda>i. world_no_key) [(''a'', ''q''), (''b'', ''q'')] ((start {})\<lparr>stdout := []\<rparr>)
      = (start {})\<lparr>stdout := [Searching_at, Searching_in ''a'' ''q'', An_error_occurred ValueError,
                               Sleeping, Searching_at, Searching_in ''a'' ''q'',
                               An_error_occurred ValueError, Sleeping]\<rparr>"
    by (simp add: numeral_2_eq_2 run_pass_no_key_start)
  show ?thesis
    using k c two by (simp add: main_def start_simps s)
qed

end
